theory Spec2Isabelle
  imports Main
begin

section \<open>Python string and list primitives used by \<open>utils/rag_system.py\<close>\<close>

text \<open>
  A Python \<open>str\<close> is modelled as a \<open>string\<close>: one list element per character, for the
  characters with code point below 256.  Integers are Python's unbounded \<open>int\<close>.
\<close>

definition py_isspace :: "char \<Rightarrow> bool" where
  "py_isspace c = (c \<in> set [CHR 0x09, CHR 0x0A, CHR 0x0B, CHR 0x0C, CHR 0x0D,
                             CHR 0x1C, CHR 0x1D, CHR 0x1E, CHR 0x1F, CHR 0x20,
                             CHR 0x85, CHR 0xA0])"

definition py_strip :: "string \<Rightarrow> string" where
  "py_strip s = rev (dropWhile py_isspace (rev (dropWhile py_isspace s)))"

definition py_lower_char :: "char \<Rightarrow> char" where
  "py_lower_char c =
     (let n = (of_char c :: nat)
      in if (65 \<le> n \<and> n \<le> 90) \<or> (192 \<le> n \<and> n \<le> 222 \<and> n \<noteq> 215)
         then char_of (n + 32) else c)"

definition py_lower :: "string \<Rightarrow> string" where
  "py_lower s = map py_lower_char s"

definition py_endswith :: "string \<Rightarrow> string \<Rightarrow> bool" where
  "py_endswith s suf =
     (length suf \<le> length s \<and> drop (length s - length suf) s = suf)"

text \<open>\<open>s.rfind(c)\<close> for a one-character \<open>c\<close>: the highest index holding \<open>c\<close>, or \<open>-1\<close>.\<close>

fun py_rfind :: "char \<Rightarrow> string \<Rightarrow> int" where
  "py_rfind c [] = - 1"
| "py_rfind c (x # xs) =
     (let r = py_rfind c xs
      in if 0 \<le> r then r + 1 else if x = c then 0 else - 1)"

text \<open>
  \<open>xs[a:b]\<close>: a negative bound counts from the end, and both bounds are clamped to
  \<open>0 .. len(xs)\<close>; the slice is empty when the adjusted bounds cross.
\<close>

definition py_slice :: "'a list \<Rightarrow> int \<Rightarrow> int \<Rightarrow> 'a list" where
  "py_slice xs a b =
     (let n = int (length xs);
          lo = (if a < 0 then max (a + n) 0 else min a n);
          hi = (if b < 0 then max (b + n) 0 else min b n)
      in take (nat (hi - lo)) (drop (nat lo) xs))"

text \<open>\<open>xs[i]\<close>: \<open>None\<close> stands for the \<open>IndexError\<close> Python raises out of range.\<close>

definition py_index :: "'a list \<Rightarrow> int \<Rightarrow> 'a option" where
  "py_index xs i =
     (let n = int (length xs); j = (if i < 0 then i + n else i)
      in if 0 \<le> j \<and> j < n then Some (xs ! nat j) else None)"

text \<open>\<open>xs.pop(i)\<close>: the removed element and the remaining list, or \<open>None\<close> for \<open>IndexError\<close>.\<close>

definition py_pop :: "'a list \<Rightarrow> int \<Rightarrow> ('a \<times> 'a list) option" where
  "py_pop xs i =
     (let n = int (length xs); j = (if i < 0 then i + n else i)
      in if 0 \<le> j \<and> j < n
         then Some (xs ! nat j, take (nat j) xs @ drop (Suc (nat j)) xs)
         else None)"

text \<open>\<open>os.path.basename\<close> on a POSIX path: what follows the last slash.\<close>

definition basename :: "string \<Rightarrow> string" where
  "basename p = rev (takeWhile (\<lambda>c. c \<noteq> CHR ''/'') (rev p))"

section \<open>The chunker: \<open>RAGSystem._chunk_text\<close>\<close>

text \<open>
  The \<open>while\<close> loop of \<open>_chunk_text\<close>, with the loop variables \<open>start\<close> and \<open>chunks\<close> as
  arguments.  The result \<open>None\<close> means that the loop never exits.
\<close>

partial_function (option) chunk_loop ::
  "string \<Rightarrow> int \<Rightarrow> int \<Rightarrow> int \<Rightarrow> string list \<Rightarrow> string list option" where
  "chunk_loop text chunk_size overlap start chunks =
     (if start < int (length text) then
        (let end0 = start + chunk_size;
             chunk0 = py_slice text start end0;
             last_period = py_rfind (CHR ''.'') chunk0;
             last_newline = py_rfind (CHR 0x0A) chunk0;
             boundary = max last_period last_newline;
             cut = (end0 < int (length text) \<and> boundary > start + chunk_size div 2);
             chunk = (if cut then py_slice text start (start + boundary + 1) else chunk0);
             end1 = (if cut then start + boundary + 1 else end0);
             chunks1 = chunks @ [py_strip chunk];
             start1 = end1 - overlap
         in if start1 \<ge> int (length text) then Some chunks1
            else chunk_loop text chunk_size overlap start1 chunks1)
      else Some chunks)"

declare chunk_loop.simps [code]

definition chunk_text :: "string \<Rightarrow> int \<Rightarrow> int \<Rightarrow> string list option" where
  "chunk_text text chunk_size overlap =
     (if text = [] then Some []
      else map_option (filter (\<lambda>chunk. chunk \<noteq> []))
             (chunk_loop text chunk_size overlap 0 []))"

section \<open>Data model: the dictionaries and attributes of \<open>RAGSystem\<close>\<close>

text \<open>
  The value under \<open>'upload_date'\<close> is a \<open>datetime\<close> object for a document ingested by
  this process, and a string for a document read back from \<open>documents.json\<close>.
\<close>

datatype 't pydate = DateTime 't | DateStr string

text \<open>The document dictionary; field \<open>ident\<close> is the key \<open>'id'\<close>.\<close>

record 't document =
  ident :: int
  filename :: string
  file_path :: string
  upload_date :: "'t pydate"
  chunk_count :: int

text \<open>The chunk dictionary; field \<open>text_of\<close> is the key \<open>'text'\<close> and
  \<open>chunk_filename\<close> the key \<open>'filename'\<close>.\<close>

record chunk =
  doc_id :: int
  chunk_id :: int
  text_of :: string
  chunk_filename :: string
  chunk_index :: int

text \<open>A file on disk: absent, present but unreadable, or holding a value.\<close>

datatype 'a disk_file = Missing | Corrupt | Content 'a

text \<open>
  The attributes \<open>vector_store\<close>, \<open>documents\<close> and \<open>document_chunks\<close> of the object,
  together with the two files named by \<open>index_file\<close> and \<open>docs_file\<close>.  The FAISS index
  is the list of the vectors added to it, in insertion order.
\<close>

record ('v, 't) rag_system =
  vector_store :: "'v list"
  documents :: "'t document list"
  document_chunks :: "chunk list"
  index_file :: "'v list disk_file"
  docs_file :: "('t document list \<times> chunk list) disk_file"

text \<open>
  What the outside world does during one call: the clock, the file being read, and which
  external calls raise.  In \<open>_process_document\<close>, \<open>encode_raises\<close> covers
  \<open>embedding_model.encode\<close> and the \<open>vector_store.add\<close> that follows it with no assignment
  in between.
\<close>

record 't env =
  now :: 't
  pdf_pages :: "string list option"
  txt_body :: "string option"
  encode_raises :: bool
  write_index_raises :: bool
  json_dump_raises :: bool
  firestore_raises :: bool

section \<open>Persistence: \<open>_save_vector_store\<close> and \<open>_load_or_create_vector_store\<close>\<close>

text \<open>
  \<open>json.dump(..., default=str)\<close> writes a \<open>datetime\<close> as the string \<open>str\<close> gives for it;
  \<open>str_dt\<close> is that rendering.
\<close>

definition json_document :: "('t \<Rightarrow> string) \<Rightarrow> 't document \<Rightarrow> 't document" where
  "json_document str_dt d =
     d\<lparr>upload_date :=
         (case upload_date d of DateTime t \<Rightarrow> DateStr (str_dt t) | DateStr x \<Rightarrow> DateStr x)\<rparr>"

text \<open>
  A raising \<open>faiss.write_index\<close> skips the rest of the \<open>try\<close> block; a raising
  \<open>json.dump\<close> leaves the metadata file, already opened for writing, unreadable.  The
  exception is logged and swallowed either way.
\<close>

definition save_vector_store ::
  "('t \<Rightarrow> string) \<Rightarrow> 't env \<Rightarrow> ('v, 't) rag_system \<Rightarrow> ('v, 't) rag_system" where
  "save_vector_store str_dt e s =
     (if write_index_raises e then s
      else
        (let s1 = s\<lparr>index_file := Content (vector_store s)\<rparr>
         in if json_dump_raises e then s1\<lparr>docs_file := Corrupt\<rparr>
            else s1\<lparr>docs_file :=
                      Content (map (json_document str_dt) (documents s), document_chunks s)\<rparr>))"

definition load_or_create_vector_store :: "('v, 't) rag_system \<Rightarrow> ('v, 't) rag_system" where
  "load_or_create_vector_store s =
     (if index_file s \<noteq> Missing \<and> docs_file s \<noteq> Missing then
        (case (index_file s, docs_file s) of
           (Content vs, Content (docs, chunks)) \<Rightarrow>
             s\<lparr>vector_store := vs, documents := docs, document_chunks := chunks\<rparr>
         | _ \<Rightarrow> s\<lparr>vector_store := [], documents := [], document_chunks := []\<rparr>)
      else s\<lparr>vector_store := [], documents := [], document_chunks := []\<rparr>)"

text \<open>\<open>RAGSystem()\<close> on a disk: the attributes start empty and the constructor loads.\<close>

definition init ::
  "'v list disk_file \<Rightarrow> ('t document list \<times> chunk list) disk_file \<Rightarrow> ('v, 't) rag_system" where
  "init ixf dcf =
     load_or_create_vector_store
       \<lparr>vector_store = [], documents = [], document_chunks = [],
        index_file = ixf, docs_file = dcf\<rparr>"

text \<open>\<open>_save_vector_store\<close> followed by the constructor of a new object on the same disk.\<close>

definition save_then_load ::
  "('t \<Rightarrow> string) \<Rightarrow> 't env \<Rightarrow> ('v, 't) rag_system \<Rightarrow> ('v, 't) rag_system" where
  "save_then_load str_dt e s =
     (let s1 = save_vector_store str_dt e s in init (index_file s1) (docs_file s1))"

section \<open>Ingestion: text extraction and \<open>_process_document\<close>\<close>

definition extract_text_from_pdf :: "string list option \<Rightarrow> string" where
  "extract_text_from_pdf pages =
     (case pages of
        None \<Rightarrow> []
      | Some ps \<Rightarrow> py_strip (concat (map (\<lambda>page. page @ [CHR 0x0A]) ps)))"

definition extract_text_from_txt :: "string option \<Rightarrow> string" where
  "extract_text_from_txt body = (case body of None \<Rightarrow> [] | Some b \<Rightarrow> py_strip b)"

definition chunk_records :: "int \<Rightarrow> int \<Rightarrow> string \<Rightarrow> string list \<Rightarrow> chunk list" where
  "chunk_records did base fname chunks =
     map (\<lambda>(i, c). \<lparr>doc_id = did, chunk_id = base + int i, text_of = c,
                     chunk_filename = fname, chunk_index = int i\<rparr>)
         (enumerate 0 chunks)"

text \<open>
  The result is \<open>None\<close> when the call never returns (the chunk loop does not exit);
  otherwise the returned flag and the state left behind.  A failing mirror write to
  Firestore is logged and changes nothing here.
\<close>

definition process_document ::
  "(string \<Rightarrow> 'v) \<Rightarrow> ('t \<Rightarrow> string) \<Rightarrow> 't env \<Rightarrow> string \<Rightarrow> ('v, 't) rag_system
     \<Rightarrow> (bool \<times> ('v, 't) rag_system) option" where
  "process_document encode str_dt e path s =
     (if \<not> py_endswith (py_lower path) ''.pdf'' \<and> \<not> py_endswith (py_lower path) ''.txt''
      then Some (False, s)
      else
        (let text0 = (if py_endswith (py_lower path) ''.pdf''
                      then extract_text_from_pdf (pdf_pages e)
                      else extract_text_from_txt (txt_body e))
         in if text0 = [] then Some (False, s)
            else
              (let fname = basename path;
                   did = int (length (documents s));
                   doc_record = \<lparr>ident = did, filename = fname, file_path = path,
                                 upload_date = DateTime (now e), chunk_count = 0\<rparr>
               in case chunk_text text0 1000 200 of
                    None \<Rightarrow> None
                  | Some chunks \<Rightarrow>
                      if chunks = [] then Some (False, s)
                      else
                        (let recs = chunk_records did (int (length (document_chunks s)))
                                      fname chunks;
                             chunk_texts = map text_of recs
                         in if encode_raises e then Some (False, s)
                            else
                              (let embeddings = map encode chunk_texts;
                                   s1 = s\<lparr>vector_store := vector_store s @ embeddings\<rparr>;
                                   s2 = s1\<lparr>documents := documents s1 @
                                            [doc_record\<lparr>chunk_count := int (length chunks)\<rparr>]\<rparr>;
                                   s3 = s2\<lparr>document_chunks := document_chunks s2 @ recs\<rparr>
                               in Some (True, save_vector_store str_dt e s3))))))"

section \<open>Removal: \<open>remove_document\<close>\<close>

text \<open>
  Every exception inside the \<open>try\<close> block ends the call with \<open>False\<close> and keeps the
  assignments made before it.
\<close>

definition remove_document ::
  "(string \<Rightarrow> 'v) \<Rightarrow> ('t \<Rightarrow> string) \<Rightarrow> 't env \<Rightarrow> int \<Rightarrow> ('v, 't) rag_system
     \<Rightarrow> bool \<times> ('v, 't) rag_system" where
  "remove_document encode str_dt e did s =
     (if did \<ge> int (length (documents s)) then (False, s)
      else
        (case py_pop (documents s) did of
           None \<Rightarrow> (False, s)
         | Some (removed_doc, rest) \<Rightarrow>
             (let s1 = s\<lparr>documents := rest\<rparr>;
                  s2 = s1\<lparr>document_chunks :=
                            filter (\<lambda>c. doc_id c \<noteq> did) (document_chunks s1)\<rparr>
              in if document_chunks s2 \<noteq> [] \<and> encode_raises e then (False, s2)
                 else
                   (let s3 = (if document_chunks s2 \<noteq> []
                              then s2\<lparr>vector_store := map encode (map text_of (document_chunks s2))\<rparr>
                              else s2\<lparr>vector_store := []\<rparr>);
                        s4 = save_vector_store str_dt e s3
                    in if firestore_raises e then (False, s4) else (True, s4)))))"

section \<open>Query: \<open>_retrieve_relevant_chunks\<close>, \<open>_generate_response\<close> and \<open>query\<close>\<close>

text \<open>
  The external calls a query makes, in order.  Each function below returns, next to its
  Python result, the calls it made.
\<close>

datatype call =
    Encode "string list"
  | Search nat
  | Generate string
  | LogQuery string nat nat

text \<open>
  The loop over \<open>zip(scores[0], indices[0])\<close>; \<open>None\<close> is the \<open>IndexError\<close> of
  \<open>self.document_chunks[idx]\<close>.  A retrieved chunk is the copied dictionary paired with
  its \<open>'similarity_score'\<close>.
\<close>

fun collect_chunks :: "chunk list \<Rightarrow> ('sc \<times> int) list \<Rightarrow> (chunk \<times> 'sc) list option" where
  "collect_chunks cs [] = Some []"
| "collect_chunks cs ((score, idx) # rest) =
     (if idx < int (length cs) then
        (case py_index cs idx of
           None \<Rightarrow> None
         | Some c \<Rightarrow> map_option (\<lambda>found. (c, score) # found) (collect_chunks cs rest))
      else collect_chunks cs rest)"

text \<open>
  \<open>search\<close> is \<open>vector_store.search\<close>: from the stored vectors, the query vector and \<open>k\<close>
  it gives the rows \<open>scores[0]\<close> and \<open>indices[0]\<close>.  Any exception makes the result
  the empty list.
\<close>

definition retrieve_relevant_chunks ::
  "(string \<Rightarrow> 'v) \<Rightarrow> ('v list \<Rightarrow> 'v \<Rightarrow> nat \<Rightarrow> 'sc list \<times> int list) \<Rightarrow> 't env \<Rightarrow> string \<Rightarrow> nat
     \<Rightarrow> ('v, 't) rag_system \<Rightarrow> (chunk \<times> 'sc) list \<times> call list" where
  "retrieve_relevant_chunks encode search e q top_k s =
     (if document_chunks s = [] then ([], [])
      else if encode_raises e then ([], [Encode [q]])
      else
        (let (scores, indices) = search (vector_store s) (encode q) top_k
         in case collect_chunks (document_chunks s) (zip scores indices) of
              None \<Rightarrow> ([], [Encode [q], Search top_k])
            | Some found \<Rightarrow> (found, [Encode [q], Search top_k])))"

fun join_blank_line :: "string list \<Rightarrow> string" where
  "join_blank_line [] = []"
| "join_blank_line [x] = x"
| "join_blank_line (x # y # ys) = x @ [CHR 0x0A, CHR 0x0A] @ join_blank_line (y # ys)"

definition build_prompt :: "string \<Rightarrow> (chunk \<times> 'sc) list \<Rightarrow> string" where
  "build_prompt q context_chunks =
     (let context = join_blank_line
            (map (\<lambda>(c, sc). ''From '' @ chunk_filename c @ '':'' @ [CHR 0x0A] @ text_of c)
                 context_chunks)
      in ''Based on the following context from uploaded notes and documents, please answer the question. If the answer cannot be found in the context, say so clearly.''
         @ [CHR 0x0A, CHR 0x0A] @ ''Context:'' @ [CHR 0x0A] @ context
         @ [CHR 0x0A, CHR 0x0A] @ ''Question: '' @ q
         @ [CHR 0x0A, CHR 0x0A] @ ''Answer:'')"

text \<open>\<open>llm\<close> is the chat completion: the reply to a prompt, or \<open>None\<close> when it raises.\<close>

definition generate_response ::
  "(string \<Rightarrow> string option) \<Rightarrow> string \<Rightarrow> (chunk \<times> 'sc) list \<Rightarrow> string \<times> call list" where
  "generate_response llm q context_chunks =
     (let prompt = build_prompt q context_chunks
      in case llm prompt of
           Some reply \<Rightarrow> (reply, [Generate prompt])
         | None \<Rightarrow> (''I apologize, but I encountered an error while generating a response. Please try again.'',
                     [Generate prompt]))"

definition log_query :: "string \<Rightarrow> nat \<Rightarrow> ('v, 't) rag_system \<Rightarrow> call list" where
  "log_query q num_chunks s = [LogQuery q num_chunks (length (documents s))]"

definition no_information :: string where
  "no_information = ''I don't have any relevant information to answer your question. Please make sure notes have been uploaded and try rephrasing your question.''"

definition query ::
  "(string \<Rightarrow> 'v) \<Rightarrow> ('v list \<Rightarrow> 'v \<Rightarrow> nat \<Rightarrow> 'sc list \<times> int list) \<Rightarrow> (string \<Rightarrow> string option)
     \<Rightarrow> 't env \<Rightarrow> string \<Rightarrow> ('v, 't) rag_system \<Rightarrow> string \<times> call list" where
  "query encode search llm e q s =
     (if py_strip q = [] then (''Please provide a valid question.'', [])
      else
        (let (relevant_chunks, calls1) = retrieve_relevant_chunks encode search e q 5 s
         in if relevant_chunks = [] then (no_information, calls1)
            else
              (let (response, calls2) = generate_response llm q relevant_chunks;
                   calls3 = log_query q (length relevant_chunks) s
               in (response, calls1 @ calls2 @ calls3))))"

section \<open>Runs of operations\<close>

datatype 't operation =
    Ingest "'t env" string
  | Remove "'t env" int

fun apply_operation ::
  "(string \<Rightarrow> 'v) \<Rightarrow> ('t \<Rightarrow> string) \<Rightarrow> 't operation \<Rightarrow> ('v, 't) rag_system
     \<Rightarrow> (bool \<times> ('v, 't) rag_system) option" where
  "apply_operation encode str_dt (Ingest e path) s = process_document encode str_dt e path s"
| "apply_operation encode str_dt (Remove e did) s = Some (remove_document encode str_dt e did s)"

text \<open>
  A run of operations that all return \<open>True\<close>: the state after the last one, or \<open>None\<close>
  if some operation returns \<open>False\<close> or does not return.
\<close>

fun run_successful ::
  "(string \<Rightarrow> 'v) \<Rightarrow> ('t \<Rightarrow> string) \<Rightarrow> 't operation list \<Rightarrow> ('v, 't) rag_system
     \<Rightarrow> ('v, 't) rag_system option" where
  "run_successful encode str_dt [] s = Some s"
| "run_successful encode str_dt (op1 # ops) s =
     (case apply_operation encode str_dt op1 s of
        Some (True, s1) \<Rightarrow> run_successful encode str_dt ops s1
      | _ \<Rightarrow> None)"

text \<open>The empty system: a fresh object on a disk holding neither file.\<close>

definition empty_system :: "('v, 't) rag_system" where
  "empty_system = init Missing Missing"

section \<open>The invariants of the specification, as predicates on a state\<close>

definition aligned :: "(string \<Rightarrow> 'v) \<Rightarrow> ('v, 't) rag_system \<Rightarrow> bool" where
  "aligned encode s = (vector_store s = map (\<lambda>c. encode (text_of c)) (document_chunks s))"

definition chunk_counts_agree :: "('v, 't) rag_system \<Rightarrow> bool" where
  "chunk_counts_agree s =
     list_all (\<lambda>d. chunk_count d =
                  int (length (filter (\<lambda>c. doc_id c = ident d) (document_chunks s))))
       (documents s)"

section \<open>Concrete inputs\<close>

text \<open>
  A toy deployment used to run the model on concrete inputs: the embedding of a text is
  its length, timestamps are natural numbers, the index search pads its result with
  position \<open>-1\<close> when it holds fewer than \<open>k\<close> vectors, and the generative model always
  gives the same reply.
\<close>

definition toy_encode :: "string \<Rightarrow> nat" where
  "toy_encode s = length s"

definition render_time :: "nat \<Rightarrow> string" where
  "render_time t = ''day '' @ replicate t (CHR ''I'')"

definition toy_search :: "nat list \<Rightarrow> nat \<Rightarrow> nat \<Rightarrow> nat list \<times> int list" where
  "toy_search vs qv k =
     (replicate k 0,
      map int [0 ..< min k (length vs)] @ replicate (k - length vs) (- 1))"

definition toy_llm :: "string \<Rightarrow> string option" where
  "toy_llm prompt = Some ''An answer.''"

definition txt_env :: "string \<Rightarrow> nat env" where
  "txt_env body =
     \<lparr>now = 3, pdf_pages = None, txt_body = Some body, encode_raises = False,
      write_index_raises = False, json_dump_raises = False, firestore_raises = False\<rparr>"

definition quiet_env :: "nat env" where
  "quiet_env = txt_env []"

definition encode_down_env :: "nat env" where
  "encode_down_env = quiet_env\<lparr>encode_raises := True\<rparr>"

text \<open>
  A text of 2000 characters whose only sentence terminator is at offset 1700.
\<close>

definition late_period_text :: string where
  "late_period_text = replicate 1700 (CHR ''a'') @ ''.'' @ replicate 299 (CHR ''a'')"

definition doc_a :: "nat document" where
  "doc_a = \<lparr>ident = 0, filename = ''a.txt'', file_path = ''notes/a.txt'',
            upload_date = DateTime 3, chunk_count = 1\<rparr>"

definition doc_b :: "nat document" where
  "doc_b = \<lparr>ident = 1, filename = ''b.txt'', file_path = ''notes/b.txt'',
            upload_date = DateTime 3, chunk_count = 1\<rparr>"

definition doc_c :: "nat document" where
  "doc_c = \<lparr>ident = 1, filename = ''c.txt'', file_path = ''notes/c.txt'',
            upload_date = DateTime 3, chunk_count = 1\<rparr>"

definition chunk_a :: chunk where
  "chunk_a = \<lparr>doc_id = 0, chunk_id = 0, text_of = ''Alpha. Beta'',
              chunk_filename = ''a.txt'', chunk_index = 0\<rparr>"

definition chunk_b :: chunk where
  "chunk_b = \<lparr>doc_id = 1, chunk_id = 1, text_of = ''Gamma'',
              chunk_filename = ''b.txt'', chunk_index = 0\<rparr>"

definition chunk_c :: chunk where
  "chunk_c = \<lparr>doc_id = 1, chunk_id = 1, text_of = ''Delta'',
              chunk_filename = ''c.txt'', chunk_index = 0\<rparr>"

text \<open>The state right after a save that wrote the given attributes.\<close>

definition saved_state ::
  "nat list \<Rightarrow> nat document list \<Rightarrow> chunk list \<Rightarrow> (nat, nat) rag_system" where
  "saved_state vs docs cs =
     \<lparr>vector_store = vs, documents = docs, document_chunks = cs,
      index_file = Content vs,
      docs_file = Content (map (json_document render_time) docs, cs)\<rparr>"

section \<open>Properties of the chunker\<close>

text \<open>
  Bounds on \<open>rfind\<close> and on slices, and the two directions in which the loop variable
  \<open>start\<close> can move: it never gets above zero once \<open>overlap\<close> reaches \<open>chunk_size\<close>, and it
  grows strictly when \<open>overlap\<close> is at most \<open>chunk_size div 2 + 1\<close>.
\<close>

lemma py_rfind_less: "py_rfind c xs < int (length xs)"
  by (induction xs) (auto simp: Let_def)
lemma length_py_slice: "a < 0 \<or> 0 \<le> b \<Longrightarrow> int (length (py_slice xs a b)) \<le> max 0 (b - a)"
  by (auto simp: py_slice_def Let_def)

lemma chunk_loop_step_bound:
  assumes "0 < chunk_size" "start \<le> 0"
  shows "(if start + chunk_size < int (length text) \<and>
             start + chunk_size div 2 <
               max (py_rfind (CHR ''.'') (py_slice text start (start + chunk_size)))
                   (py_rfind (CHR 0x0A) (py_slice text start (start + chunk_size)))
          then start +
               max (py_rfind (CHR ''.'') (py_slice text start (start + chunk_size)))
                   (py_rfind (CHR 0x0A) (py_slice text start (start + chunk_size))) + 1
          else start + chunk_size)
         \<le> start + chunk_size"
proof -
  let ?c = "py_slice text start (start + chunk_size)"
  have "int (length ?c) \<le> chunk_size"
    using length_py_slice[of start "start + chunk_size" "text"] assms
    by (cases "start < 0") auto
  moreover have "py_rfind (CHR ''.'') ?c < int (length ?c)"
    and "py_rfind (CHR 0x0A) ?c < int (length ?c)"
    by (rule py_rfind_less)+
  ultimately show ?thesis by auto
qed

lemma chunk_loop_diverges_aux:
  assumes major: "chunk_loop text chunk_size overlap start chunks = Some r"
  shows "\<not> (text \<noteq> [] \<and> 0 < chunk_size \<and> chunk_size \<le> overlap \<and> start \<le> 0)"
proof (rule chunk_loop.raw_induct
         [where P = "\<lambda>tx sz ov st cks r. \<not> (tx \<noteq> [] \<and> 0 < sz \<and> sz \<le> ov \<and> st \<le> 0)",
          OF _ major], goal_cases)
  case (1 f tx sz ov st cks r)
  note IH = "1"(1) and eq = "1"(2)
  show ?case
  proof
    assume a: "tx \<noteq> [] \<and> 0 < sz \<and> sz \<le> ov \<and> st \<le> 0"
    let ?c = "py_slice tx st (st + sz)"
    let ?b = "max (py_rfind (CHR ''.'') ?c) (py_rfind (CHR 0x0A) ?c)"
    let ?cut = "st + sz < int (length tx) \<and> ?b > st + sz div 2"
    let ?e = "if ?cut then st + ?b + 1 else st + sz"
    have e: "?e \<le> st + sz" using chunk_loop_step_bound[of sz st tx] a by simp
    have lt: "st < int (length tx)" using a by (cases tx) auto
    have nx: "?e - ov \<le> 0" "\<not> int (length tx) \<le> ?e - ov" using e a lt by linarith+
    from eq lt nx have "\<exists>cs. f tx sz ov (?e - ov) cs = Some r"
      by (auto simp: Let_def split: if_splits)
    then obtain cs where "f tx sz ov (?e - ov) cs = Some r" ..
    from IH[OF this] a nx(1) show False by blast
  qed
qed

lemma chunk_loop_terminates:
  assumes "0 < overlap" "overlap < chunk_size" "overlap \<le> chunk_size div 2 + 1"
  shows "0 \<le> start \<Longrightarrow> \<exists>r. chunk_loop text chunk_size overlap start chunks = Some r"
proof (induction "nat (int (length text) - start)" arbitrary: start chunks rule: less_induct)
  case less
  let ?c = "py_slice text start (start + chunk_size)"
  let ?b = "max (py_rfind (CHR ''.'') ?c) (py_rfind (CHR 0x0A) ?c)"
  let ?cut = "start + chunk_size < int (length text) \<and> ?b > start + chunk_size div 2"
  let ?e = "if ?cut then start + ?b + 1 else start + chunk_size"
  let ?ch = "if ?cut then py_slice text start (start + ?b + 1) else ?c"
  show ?case
  proof (cases "start < int (length text)")
    case False
    then show ?thesis by (subst chunk_loop.simps) simp
  next
    case True
    have adv: "start < ?e - overlap" using assms less.prems by auto
    show ?thesis
    proof (cases "int (length text) \<le> ?e - overlap")
      case True
      with \<open>start < int (length text)\<close> show ?thesis
        by (subst chunk_loop.simps) (simp add: Let_def)
    next
      case False
      have "nat (int (length text) - (?e - overlap)) < nat (int (length text) - start)"
        using adv False by linarith
      moreover have "0 \<le> ?e - overlap" using adv less.prems by linarith
      ultimately obtain r where "chunk_loop text chunk_size overlap (?e - overlap) (chunks @ [py_strip ?ch]) = Some r"
        using less.hyps by blast
      with False \<open>start < int (length text)\<close> show ?thesis
        by (subst chunk_loop.simps) (simp add: Let_def)
    qed
  qed
qed

lemma chunk_loop_cycle_aux:
  assumes major: "chunk_loop text chunk_size overlap start chunks = Some r"
  shows "\<not> (text = ''aaaaaa.aaaaaaaaaaaaa'' \<and> chunk_size = 10 \<and> overlap = 9 \<and>
            (start = 0 \<or> start = - 2 \<or> start = - 1))"
proof (rule chunk_loop.raw_induct
         [where P = "\<lambda>tx sz ov st cks r. \<not> (tx = ''aaaaaa.aaaaaaaaaaaaa'' \<and> sz = 10 \<and> ov = 9 \<and>
            (st = 0 \<or> st = - 2 \<or> st = - 1))",
          OF _ major], goal_cases)
  case (1 f tx sz ov st cks r)
  note IH = "1"(1) and eq = "1"(2)
  show ?case
  proof
    assume a: "tx = ''aaaaaa.aaaaaaaaaaaaa'' \<and> sz = 10 \<and> ov = 9 \<and> (st = 0 \<or> st = - 2 \<or> st = - 1)"
    then consider "st = 0" | "st = - 2" | "st = - 1" by blast
    then show False
    proof cases
      case 1
      with a eq have "\<exists>cs. f tx sz ov (- 2) cs = Some r"
        by (auto simp: py_slice_def Let_def)
      then show False using IH a by blast
    next
      case 2
      with a eq have "\<exists>cs. f tx sz ov (- 1) cs = Some r"
        by (auto simp: py_slice_def Let_def)
      then show False using IH a by blast
    next
      case 3
      with a eq have "\<exists>cs. f tx sz ov 0 cs = Some r"
        by (auto simp: py_slice_def Let_def)
      then show False using IH a by blast
    qed
  qed
qed

lemma py_rfind_ge: "- 1 \<le> py_rfind c xs"
  by (induction xs) (auto simp: Let_def)

lemma py_rfind_append:
  "py_rfind c (xs @ ys) =
     (if 0 \<le> py_rfind c ys then int (length xs) + py_rfind c ys else py_rfind c xs)"
  using py_rfind_ge[of c ys] by (induction xs) (auto simp: Let_def)

lemma py_rfind_absent: "c \<notin> set xs \<Longrightarrow> py_rfind c xs = - 1"
  by (induction xs) (auto simp: Let_def)

lemma py_strip_id:
  "xs \<noteq> [] \<Longrightarrow> \<not> py_isspace (hd xs) \<Longrightarrow> \<not> py_isspace (last xs) \<Longrightarrow> py_strip xs = xs"
proof -
  assume a: "xs \<noteq> []" "\<not> py_isspace (hd xs)" "\<not> py_isspace (last xs)"
  then have "dropWhile py_isspace xs = xs" by (cases xs) auto
  moreover have "dropWhile py_isspace (rev xs) = rev xs" using a by (cases "rev xs") (auto simp: last_rev hd_rev)
  ultimately show ?thesis by (simp add: py_strip_def)
qed

lemma py_slice_window:
  assumes "0 \<le> a" "0 \<le> b"
  shows "py_slice xs a b = take (nat (b - a)) (drop (nat a) xs)"
proof -
  let ?n = "int (length xs)"
  have d: "drop (nat (min a ?n)) xs = drop (nat a) xs"
    using assms by (cases "a \<le> ?n") (simp_all add: min_def)
  have "take (nat (min b ?n - min a ?n)) (drop (nat a) xs) = take (nat (b - a)) (drop (nat a) xs)"
  proof (cases "b \<le> ?n")
    case True
    then show ?thesis using assms by (cases "a \<le> ?n") (simp_all add: min_def)
  next
    case False
    then have "length (drop (nat a) xs) \<le> nat (min b ?n - min a ?n)"
      "length (drop (nat a) xs) \<le> nat (b - a)" using assms by (auto simp: min_def)
    then show ?thesis by simp
  qed
  with d show ?thesis using assms by (simp add: py_slice_def Let_def)
qed

lemma notin_take: "c \<notin> set xs \<Longrightarrow> c \<notin> set (take n xs)"
  by (auto dest: in_set_takeD)

lemma notin_drop: "c \<notin> set xs \<Longrightarrow> c \<notin> set (drop n xs)"
  by (auto dest: in_set_dropD)

lemma py_strip_clean:
  assumes "xs \<noteq> []" "\<forall>c \<in> set xs. \<not> py_isspace c"
  shows "py_strip xs = xs"
  using assms by (intro py_strip_id) simp_all

lemma second_window_not_cut:
  assumes lx: "length xs = 1700" and ly: "length ys = 299"
    and clean: "\<forall>c \<in> set (xs @ ys). c \<noteq> CHR ''.'' \<and> c \<noteq> CHR 0x0A \<and> \<not> py_isspace c"
  shows "chunk_text (xs @ CHR ''.'' # ys) 1000 200 =
           Some [take 1000 xs, drop 800 xs @ CHR ''.'' # take 99 ys, drop 1600 xs @ CHR ''.'' # ys]"
proof -
  let ?T = "xs @ CHR ''.'' # ys"
  have nd: "CHR ''.'' \<notin> set xs" "CHR 0x0A \<notin> set xs" "CHR ''.'' \<notin> set ys" "CHR 0x0A \<notin> set ys"
    using clean by auto
  have w0: "py_slice ?T 0 1000 = take 1000 xs" using lx by (simp add: py_slice_window)
  have w1: "py_slice ?T 800 1800 = drop 800 xs @ CHR ''.'' # take 99 ys"
    using lx ly by (simp add: py_slice_window)
  have w2: "py_slice ?T 1600 2600 = drop 1600 xs @ CHR ''.'' # ys"
    using lx ly by (simp add: py_slice_window)
  have r0: "py_rfind (CHR ''.'') (take 1000 xs) = - 1" "py_rfind (CHR 0x0A) (take 1000 xs) = - 1"
    using nd by (simp_all add: py_rfind_absent notin_take)
  have r1: "py_rfind (CHR ''.'') (drop 800 xs @ CHR ''.'' # take 99 ys) = 900"
    using nd lx by (simp add: py_rfind_append py_rfind_absent Let_def notin_take)
  have r1n: "py_rfind (CHR 0x0A) (drop 800 xs @ CHR ''.'' # take 99 ys) = - 1"
    using nd by (simp add: py_rfind_append py_rfind_absent notin_take notin_drop Let_def)
  have cx: "\<forall>c \<in> set xs. \<not> py_isspace c" and cy: "\<forall>c \<in> set ys. \<not> py_isspace c"
    using clean by auto
  have sp: "\<not> py_isspace (CHR ''.'')" by (simp add: py_isspace_def)
  have s0: "py_strip (take 1000 xs) = take 1000 xs"
    using lx cx by (intro py_strip_clean) (auto dest: in_set_takeD)
  have s1: "py_strip (drop 800 xs @ CHR ''.'' # take 99 ys) = drop 800 xs @ CHR ''.'' # take 99 ys"
    using cx cy sp by (intro py_strip_clean) (auto dest: in_set_takeD in_set_dropD)
  have s2: "py_strip (drop 1600 xs @ CHR ''.'' # ys) = drop 1600 xs @ CHR ''.'' # ys"
    using cx cy sp by (intro py_strip_clean) (auto dest: in_set_dropD)
  have step0: "chunk_loop ?T 1000 200 0 [] = chunk_loop ?T 1000 200 800 [take 1000 xs]"
    by (subst chunk_loop.simps) (simp add: lx ly w0 r0 s0 Let_def)
  have step1: "chunk_loop ?T 1000 200 800 [take 1000 xs] =
               chunk_loop ?T 1000 200 1600 [take 1000 xs, drop 800 xs @ CHR ''.'' # take 99 ys]"
    by (subst chunk_loop.simps) (simp add: lx ly w1 r1 r1n s1 Let_def)
  have step2: "chunk_loop ?T 1000 200 1600 [take 1000 xs, drop 800 xs @ CHR ''.'' # take 99 ys] =
               Some [take 1000 xs, drop 800 xs @ CHR ''.'' # take 99 ys, drop 1600 xs @ CHR ''.'' # ys]"
    by (subst chunk_loop.simps) (simp add: lx ly w2 s2 Let_def)
  have nz: "take 1000 xs \<noteq> []" using lx by auto
  show ?thesis unfolding chunk_text_def using step0 step1 step2 nz by simp
qed


lemma chunk_loop_diverges:
  assumes "text \<noteq> []" "0 < chunk_size" "chunk_size \<le> overlap" "start \<le> 0"
  shows "chunk_loop text chunk_size overlap start chunks = None"
proof (cases "chunk_loop text chunk_size overlap start chunks")
  case None
  then show ?thesis .
next
  case (Some r)
  from chunk_loop_diverges_aux[OF this] assms show ?thesis by simp
qed

text \<open>
  Claim C4, as the code has it.  For every text and every configuration with
  \<open>0 < overlap < chunk_size\<close> and \<open>overlap \<le> chunk_size div 2 + 1\<close> (the defaults 1000 and 200
  among them), \<open>_chunk_text\<close> returns, and every chunk it returns is a non-empty string.
\<close>

theorem chunk_text_terminates:
  assumes "0 < overlap" "overlap < chunk_size" "overlap \<le> chunk_size div 2 + 1"
  shows "\<exists>chunks. chunk_text text chunk_size overlap = Some chunks \<and> (\<forall>c \<in> set chunks. c \<noteq> [])"
proof (cases "text = []")
  case True
  then show ?thesis by (simp add: chunk_text_def)
next
  case False
  obtain r where "chunk_loop text chunk_size overlap 0 [] = Some r"
    using chunk_loop_terminates[OF assms, of 0] by auto
  with False show ?thesis by (simp add: chunk_text_def)
qed

theorem chunk_text_terminates_witness:
  "(0::int) < 5 \<and> (5::int) < 20 \<and> (5::int) \<le> 20 div 2 + 1 \<and>
   chunk_text ''The sky is blue. Grass is green.'' 20 5 \<noteq> None \<and>
   [] \<notin> set (the (chunk_text ''The sky is blue. Grass is green.'' 20 5))"
proof -
  have h1: "(0::int) < 5" and h2: "(5::int) < 20" and h3: "(5::int) \<le> 20 div 2 + 1"
    by simp_all
  obtain chunks where c: "chunk_text ''The sky is blue. Grass is green.'' 20 5 = Some chunks"
    and n: "\<forall>c \<in> set chunks. c \<noteq> []"
    using chunk_text_terminates[OF h1 h2 h3] by blast
  from n have "[] \<notin> set chunks" by blast
  with c h1 h2 h3 show ?thesis by simp
qed

text \<open>
  Claim C4 as stated, for every \<open>0 < overlap < chunk_size\<close>, fails: with size 10 and
  overlap 9 the first window of this 20-character text is cut after the full stop at
  offset 6, \<open>start\<close> becomes \<open>7 - 9 = -2\<close>, the next two windows are empty slices, and
  \<open>start\<close> is back at 0: the loop never exits.
\<close>

theorem chunk_text_overlap_9_size_10_never_returns:
  "(0::int) < 9 \<and> (9::int) < 10 \<and> chunk_text ''aaaaaa.aaaaaaaaaaaaa'' 10 9 = None"
proof -
  have "chunk_loop ''aaaaaa.aaaaaaaaaaaaa'' 10 9 0 [] = None"
  proof (cases "chunk_loop ''aaaaaa.aaaaaaaaaaaaa'' 10 9 0 []")
    case None
    then show ?thesis .
  next
    case (Some r)
    from chunk_loop_cycle_aux[OF this] show ?thesis by simp
  qed
  then show ?thesis by (simp add: chunk_text_def)
qed

text \<open>
  The bound \<open>overlap \<le> chunk_size div 2 + 1\<close> is sharp: for every larger overlap below
  \<open>chunk_size\<close> there is a text, with its only full stop at offset \<open>overlap - 1\<close>, on which the
  first window is cut so that \<open>start\<close> returns to 0.
\<close>

lemma take_window_replicate:
  assumes "k < m"
  shows "take m (replicate k a @ c # replicate m a) = replicate k a @ c # replicate (m - Suc k) a"
proof -
  have "take (m - k) (c # replicate m a) = c # replicate (m - Suc k) a"
    using assms by (simp add: take_Cons' min_def)
  with assms show ?thesis by (simp add: min_def)
qed

lemma chunk_loop_returns_to_zero_aux:
  assumes major: "chunk_loop text chunk_size overlap start chunks = Some r"
  shows "\<not> (chunk_size div 2 + 2 \<le> overlap \<and> overlap < chunk_size \<and> start = 0 \<and>
            text = replicate (nat overlap - 1) (CHR ''a'') @ CHR ''.'' #
                   replicate (nat chunk_size) (CHR ''a''))"
proof (rule chunk_loop.raw_induct
         [where P = "\<lambda>tx sz ov st cks r.
            \<not> (sz div 2 + 2 \<le> ov \<and> ov < sz \<and> st = 0 \<and>
               tx = replicate (nat ov - 1) (CHR ''a'') @ CHR ''.'' # replicate (nat sz) (CHR ''a''))",
          OF _ major], goal_cases)
  case (1 f tx sz ov st cks r)
  note IH = "1"(1) and eq = "1"(2)
  show ?case
  proof
    assume a: "sz div 2 + 2 \<le> ov \<and> ov < sz \<and> st = 0 \<and>
               tx = replicate (nat ov - 1) (CHR ''a'') @ CHR ''.'' # replicate (nat sz) (CHR ''a'')"
    have pos: "2 \<le> ov" "0 < sz" using a by linarith+
    have len: "int (length tx) = ov + sz" using a pos by (simp add: nat_diff_distrib)
    have "nat ov - 1 < nat sz" using a pos by linarith
    from take_window_replicate[OF this, of "CHR ''a''" "CHR ''.''"]
    have w: "py_slice tx 0 sz =
             replicate (nat ov - 1) (CHR ''a'') @ CHR ''.'' # replicate (nat sz - Suc (nat ov - 1)) (CHR ''a'')"
      using a pos by (simp add: py_slice_window)
    have rp: "py_rfind (CHR ''.'') (py_slice tx 0 sz) = ov - 1"
      unfolding w using pos by (simp add: py_rfind_append py_rfind_absent Let_def nat_diff_distrib)
    have rn: "py_rfind (CHR 0x0A) (py_slice tx 0 sz) = - 1"
      unfolding w by (simp add: py_rfind_append py_rfind_absent Let_def)
    have b: "max (py_rfind (CHR ''.'') (py_slice tx 0 sz)) (py_rfind (CHR 0x0A) (py_slice tx 0 sz)) = ov - 1"
      using rp rn pos by simp
    have st0: "st = 0" and cut: "sz div 2 < ov - 1" and ov0: "0 < ov"
      using a by linarith+
    from eq have "\<exists>cs. f tx sz ov 0 cs = Some r"
      unfolding st0 using cut ov0 pos(2) by (auto simp: Let_def b len)
    then obtain cs where "f tx sz ov 0 cs = Some r" ..
    from IH[OF this] a show False by blast
  qed
qed

lemma chunk_text_bound_is_sharp:
  assumes "chunk_size div 2 + 2 \<le> overlap" "overlap < chunk_size"
  shows "chunk_text (replicate (nat overlap - 1) (CHR ''a'') @ CHR ''.'' #
                     replicate (nat chunk_size) (CHR ''a'')) chunk_size overlap = None"
proof -
  let ?T = "replicate (nat overlap - 1) (CHR ''a'') @ CHR ''.'' # replicate (nat chunk_size) (CHR ''a'')"
  have "chunk_loop ?T chunk_size overlap 0 [] = None"
  proof (cases "chunk_loop ?T chunk_size overlap 0 []")
    case None
    then show ?thesis .
  next
    case (Some r)
    from chunk_loop_returns_to_zero_aux[OF this] assms show ?thesis by simp
  qed
  then show ?thesis by (simp add: chunk_text_def)
qed

text \<open>
  Claim C5 against the code.  With the default configuration, the window starting at
  offset 800 of \<open>late_period_text\<close> ends before the end of the text and its last full stop
  is 900 characters from its start, past the midpoint 500.  The code compares that
  chunk-relative offset with \<open>start + chunk_size // 2 = 1300\<close>, so the window is emitted
  whole, with the 99 characters after the full stop.
\<close>

theorem second_window_keeps_text_after_late_period:
  "py_slice late_period_text 800 1800 =
     replicate 900 (CHR ''a'') @ ''.'' @ replicate 99 (CHR ''a'') \<and>
   (1800::int) < int (length late_period_text) \<and>
   py_rfind (CHR ''.'') (py_slice late_period_text 800 1800) = 900 \<and>
   chunk_text late_period_text 1000 200 =
     Some [replicate 1000 (CHR ''a''),
           replicate 900 (CHR ''a'') @ ''.'' @ replicate 99 (CHR ''a''),
           replicate 100 (CHR ''a'') @ ''.'' @ replicate 299 (CHR ''a'')]"
  using second_window_not_cut[of "replicate 1700 (CHR ''a'')" "replicate 299 (CHR ''a'')"]
  by (simp add: late_period_text_def py_isspace_def py_slice_window py_rfind_append
        py_rfind_absent)

text \<open>
  Claim C6, as the code has it.  \<open>_chunk_text\<close> checks neither parameter: for every
  non-empty text and every configuration with \<open>0 < chunk_size \<le> overlap\<close> the loop never
  exits.
\<close>

theorem chunk_text_never_returns_when_overlap_reaches_size:
  assumes "text \<noteq> []" "0 < chunk_size" "chunk_size \<le> overlap"
  shows "chunk_text text chunk_size overlap = None"
  using assms chunk_loop_diverges[of "text" chunk_size overlap 0 "[]"]
  by (simp add: chunk_text_def)

theorem chunk_text_never_returns_when_overlap_reaches_size_witness:
  "''ab'' \<noteq> [] \<and> (0::int) < 2 \<and> (2::int) \<le> 3 \<and> chunk_text ''ab'' 2 3 = None"
proof -
  have h1: "''ab'' \<noteq> []" and h2: "(0::int) < 2" and h3: "(2::int) \<le> 3" by simp_all
  from chunk_text_never_returns_when_overlap_reaches_size[OF h1 h2 h3] h1 h2 h3
  show ?thesis by blast
qed

text \<open>
  Claim C6 as stated fails: a configuration with \<open>overlap = chunk_size\<close> is neither
  rejected nor clamped, and chunking a one-character text with it never returns.
\<close>

theorem chunk_text_overlap_equal_size_not_rejected:
  "chunk_text ''a'' 1 1 = None"
  using chunk_loop_diverges[of "''a''" 1 1 0 "[]"] by (simp add: chunk_text_def)

section \<open>Ingestion always returns\<close>

text \<open>
  \<open>_process_document\<close> calls the chunker with the defaults, for which the loop exits.
\<close>

lemma chunk_text_defaults_return: "\<exists>chunks. chunk_text text0 1000 200 = Some chunks"
proof (cases "text0 = []")
  case True
  then show ?thesis by (simp add: chunk_text_def)
next
  case False
  obtain r where "chunk_loop text0 1000 200 0 [] = Some r"
    using chunk_loop_terminates[of 200 1000 0 text0 "[]"] by auto
  with False show ?thesis by (simp add: chunk_text_def)
qed

lemma process_document_returns: "\<exists>ok s1. process_document encode str_dt e path s = Some (ok, s1)"
proof -
  obtain chunks where c: "chunk_text (if py_endswith (py_lower path) ''.pdf''
                      then extract_text_from_pdf (pdf_pages e)
                      else extract_text_from_txt (txt_body e)) 1000 200 = Some chunks"
    using chunk_text_defaults_return by blast
  show ?thesis
    unfolding process_document_def Let_def c by auto
qed

section \<open>Positional alignment of chunks and vectors\<close>

lemma save_memory [simp]:
  "vector_store (save_vector_store str_dt e s) = vector_store s"
  "documents (save_vector_store str_dt e s) = documents s"
  "document_chunks (save_vector_store str_dt e s) = document_chunks s"
  by (simp_all add: save_vector_store_def Let_def)

lemma text_of_chunk_records [simp]: "map text_of (chunk_records did base fname chunks) = chunks"
  by (simp add: chunk_records_def comp_def case_prod_beta)

lemma doc_id_chunk_records [simp]: "c \<in> set (chunk_records did base fname chunks) \<Longrightarrow> doc_id c = did"
  by (auto simp: chunk_records_def)

lemma length_chunk_records [simp]: "length (chunk_records did base fname chunks) = length chunks"
  by (simp add: chunk_records_def)

lemma process_document_aligned:
  assumes "process_document encode str_dt e path s = Some (True, s1)" "aligned encode s"
  shows "aligned encode s1"
proof -
  from assms(1) obtain chunks where
    "s1 = save_vector_store str_dt e
            (s\<lparr>vector_store := vector_store s @
                  map encode (map text_of (chunk_records (int (length (documents s)))
                     (int (length (document_chunks s))) (basename path) chunks)),
               documents := documents s @
                  [\<lparr>ident = int (length (documents s)), filename = basename path, file_path = path,
                    upload_date = DateTime (now e), chunk_count = int (length chunks)\<rparr>],
               document_chunks := document_chunks s @
                  chunk_records (int (length (documents s)))
                     (int (length (document_chunks s))) (basename path) chunks\<rparr>)"
    by (auto simp: process_document_def Let_def split: if_splits option.splits)
  with assms(2) show ?thesis
    by (simp add: aligned_def o_def del: text_of_chunk_records)
qed

lemma remove_document_aligned:
  assumes "remove_document encode str_dt e did s = (True, s1)"
  shows "aligned encode s1"
  using assms
  by (auto simp: remove_document_def Let_def aligned_def split: if_splits option.splits)

lemma empty_system_aligned: "aligned encode empty_system"
  by (simp add: empty_system_def init_def load_or_create_vector_store_def aligned_def)

lemma run_successful_aligned:
  "aligned encode s \<Longrightarrow> run_successful encode str_dt ops s = Some s1 \<Longrightarrow> aligned encode s1"
proof (induction ops arbitrary: s)
  case Nil
  then show ?case by simp
next
  case (Cons op1 ops)
  from Cons.prems(2) obtain s2 where
    st: "apply_operation encode str_dt op1 s = Some (True, s2)"
    and rest: "run_successful encode str_dt ops s2 = Some s1"
    by (auto split: option.splits bool.splits)
  have "aligned encode s2"
  proof (cases op1)
    case (Ingest e path)
    with st Cons.prems(1) show ?thesis by (auto intro: process_document_aligned)
  next
    case (Remove e did)
    with st show ?thesis by (auto intro: remove_document_aligned)
  qed
  from this rest show ?case by (rule Cons.IH)
qed

text \<open>
  Claim C1 (invariant I1).  After any run of ingest and remove calls that all return
  \<open>True\<close>, started on the empty system, the chunk list and the vector index have the
  same length, and the vector at every position is the embedding of the text of the
  chunk at that position.
\<close>

theorem alignment_after_successful_operations:
  assumes "run_successful encode str_dt ops empty_system = Some s"
  shows "length (document_chunks s) = length (vector_store s) \<and>
         (\<forall>i < length (document_chunks s).
            vector_store s ! i = encode (text_of (document_chunks s ! i)))"
proof -
  have "aligned encode s"
    using empty_system_aligned assms by (rule run_successful_aligned)
  then show ?thesis by (simp add: aligned_def)
qed

theorem alignment_after_successful_operations_witness:
  "run_successful toy_encode render_time
      [Ingest (txt_env ''Alpha. Beta'') ''notes/a.txt'', Ingest (txt_env ''Gamma'') ''notes/b.txt'',
       Remove quiet_env 0, Ingest (txt_env ''Delta'') ''notes/c.txt''] empty_system =
     Some (saved_state [5, 5] [doc_b, doc_c] [chunk_b, chunk_c]) \<and>
   length (document_chunks (saved_state [5, 5] [doc_b, doc_c] [chunk_b, chunk_c])) =
   length (vector_store (saved_state [5, 5] [doc_b, doc_c] [chunk_b, chunk_c])) \<and>
   vector_store (saved_state [5, 5] [doc_b, doc_c] [chunk_b, chunk_c]) ! 1 =
   toy_encode (text_of (document_chunks (saved_state [5, 5] [doc_b, doc_c] [chunk_b, chunk_c]) ! 1))"
proof -
  have h: "run_successful toy_encode render_time
      [Ingest (txt_env ''Alpha. Beta'') ''notes/a.txt'', Ingest (txt_env ''Gamma'') ''notes/b.txt'',
       Remove quiet_env 0, Ingest (txt_env ''Delta'') ''notes/c.txt''] empty_system =
     Some (saved_state [5, 5] [doc_b, doc_c] [chunk_b, chunk_c])"
    by code_simp
  have a: "length (document_chunks (saved_state [5, 5] [doc_b, doc_c] [chunk_b, chunk_c])) =
           length (vector_store (saved_state [5, 5] [doc_b, doc_c] [chunk_b, chunk_c]))"
    using alignment_after_successful_operations[OF h] by blast
  have b: "vector_store (saved_state [5, 5] [doc_b, doc_c] [chunk_b, chunk_c]) ! 1 =
           toy_encode (text_of (document_chunks (saved_state [5, 5] [doc_b, doc_c] [chunk_b, chunk_c]) ! 1))"
    using alignment_after_successful_operations[OF h, THEN conjunct2, rule_format, of 1]
    by (simp add: saved_state_def)
  show ?thesis by (intro conjI h a b)
qed

section \<open>Failure of the embedding call\<close>

text \<open>
  During an ingest the embedding call comes before any assignment, so a failure there
  leaves the object as it was.
\<close>

lemma process_document_encode_failure:
  assumes "encode_raises e" "process_document encode str_dt e path s = Some (ok, s1)"
  shows "\<not> ok \<and> s1 = s"
  using assms by (auto simp: process_document_def Let_def split: if_splits option.splits)

text \<open>
  Claim C2 against the code.  \<open>remove_document\<close> pops the document and filters the chunk
  list before it re-embeds; when the embedding call raises, the call returns \<open>False\<close> with
  the document and its chunk gone and the index still holding both vectors.
\<close>

theorem remove_document_encode_failure_not_atomic:
  "run_successful toy_encode render_time
      [Ingest (txt_env ''Alpha. Beta'') ''notes/a.txt'', Ingest (txt_env ''Gamma'') ''notes/b.txt'']
      empty_system = Some (saved_state [11, 5] [doc_a, doc_b] [chunk_a, chunk_b]) \<and>
   remove_document toy_encode render_time encode_down_env 0
      (saved_state [11, 5] [doc_a, doc_b] [chunk_a, chunk_b]) =
     (False, (saved_state [11, 5] [doc_a, doc_b] [chunk_a, chunk_b])
               \<lparr>documents := [doc_b], document_chunks := [chunk_b]\<rparr>)"
  by code_simp

section \<open>Chunk counts (invariant I2)\<close>

text \<open>
  Claim C3 against the code.  After removing the first of two documents, the next
  ingest takes the id \<open>len(documents) = 1\<close>, which the remaining document already has:
  two chunks now carry \<open>doc_id = 1\<close> while each of the two documents has
  \<open>chunk_count = 1\<close>.
\<close>

theorem chunk_count_disagrees_after_id_reuse:
  "run_successful toy_encode render_time
      [Ingest (txt_env ''Alpha. Beta'') ''notes/a.txt'', Ingest (txt_env ''Gamma'') ''notes/b.txt'',
       Remove quiet_env 0, Ingest (txt_env ''Delta'') ''notes/c.txt''] empty_system =
     Some (saved_state [5, 5] [doc_b, doc_c] [chunk_b, chunk_c]) \<and>
   chunk_count doc_b = 1 \<and> ident doc_b = 1 \<and> doc_id chunk_b = 1 \<and> doc_id chunk_c = 1 \<and>
   \<not> chunk_counts_agree (saved_state [5, 5] [doc_b, doc_c] [chunk_b, chunk_c])"
  by code_simp

section \<open>Persistence round trip\<close>

text \<open>
  Claim C7, as the code has it.  When neither write raises, a save followed by a load
  on a fresh object gives back the same chunk list and the same vectors (so the same
  index size), and the document list with every \<open>upload_date\<close> replaced by the string
  written for it; a second round trip gives back the loaded document list unchanged.
\<close>

theorem save_then_load_roundtrip:
  assumes "\<not> write_index_raises e" "\<not> json_dump_raises e"
  shows "documents (save_then_load str_dt e s) = map (json_document str_dt) (documents s) \<and>
         document_chunks (save_then_load str_dt e s) = document_chunks s \<and>
         vector_store (save_then_load str_dt e s) = vector_store s \<and>
         length (vector_store (save_then_load str_dt e s)) = length (vector_store s) \<and>
         documents (save_then_load str_dt e (save_then_load str_dt e s)) =
           documents (save_then_load str_dt e s)"
proof -
  have once: "\<And>s :: ('b, 'a) rag_system.
      documents (save_then_load str_dt e s) = map (json_document str_dt) (documents s) \<and>
      document_chunks (save_then_load str_dt e s) = document_chunks s \<and>
      vector_store (save_then_load str_dt e s) = vector_store s"
    using assms
    by (simp add: save_then_load_def save_vector_store_def init_def
          load_or_create_vector_store_def Let_def)
  have idem: "\<And>d :: 'a document. json_document str_dt (json_document str_dt d) = json_document str_dt d"
    by (simp add: json_document_def split: pydate.splits)
  show ?thesis by (simp add: once idem)
qed

theorem save_then_load_roundtrip_witness:
  "\<not> write_index_raises quiet_env \<and> \<not> json_dump_raises quiet_env \<and>
   documents (save_then_load render_time quiet_env (saved_state [11] [doc_a] [chunk_a])) =
     [doc_a\<lparr>upload_date := DateStr ''day III''\<rparr>] \<and>
   document_chunks (save_then_load render_time quiet_env (saved_state [11] [doc_a] [chunk_a])) =
     [chunk_a] \<and>
   vector_store (save_then_load render_time quiet_env (saved_state [11] [doc_a] [chunk_a])) = [11]"
proof -
  have h1: "\<not> write_index_raises quiet_env" and h2: "\<not> json_dump_raises quiet_env"
    by (simp_all add: quiet_env_def txt_env_def)
  from save_then_load_roundtrip[OF h1 h2, of render_time "saved_state [11] [doc_a] [chunk_a]"] h1 h2
  show ?thesis
    by (simp add: saved_state_def json_document_def doc_a_def render_time_def eval_nat_numeral)
qed

text \<open>
  Claim C7 as stated fails: the document ingested in this process holds a \<open>datetime\<close>,
  the one read back holds a string, so the two document lists differ.
\<close>

theorem save_then_load_changes_documents:
  "run_successful toy_encode render_time [Ingest (txt_env ''Alpha. Beta'') ''notes/a.txt'']
      empty_system = Some (saved_state [11] [doc_a] [chunk_a]) \<and>
   documents (save_then_load render_time quiet_env (saved_state [11] [doc_a] [chunk_a])) \<noteq>
   documents (saved_state [11] [doc_a] [chunk_a])"
  by code_simp

section \<open>Queries\<close>

text \<open>
  Claim C8.  A non-blank question asked of a state with no chunks gets the fixed
  "no relevant information" response, and no external call is made: in particular the
  generative model is not invoked.
\<close>

theorem empty_index_query:
  assumes "py_strip q \<noteq> []" "document_chunks s = []"
  shows "query encode search llm e q s = (no_information, [])"
  using assms by (simp add: query_def retrieve_relevant_chunks_def)

theorem empty_index_query_witness:
  "py_strip ''What is a chunk?'' \<noteq> [] \<and>
   document_chunks (empty_system :: (nat, nat) rag_system) = [] \<and>
   query toy_encode toy_search toy_llm quiet_env ''What is a chunk?''
     (empty_system :: (nat, nat) rag_system) = (no_information, [])"
proof -
  have h1: "py_strip ''What is a chunk?'' \<noteq> []" by code_simp
  have h2: "document_chunks (empty_system :: (nat, nat) rag_system) = []"
    by (simp add: empty_system_def init_def load_or_create_vector_store_def)
  from empty_index_query[OF h1 h2] h1 h2 show ?thesis by blast
qed

lemma collect_chunks_append:
  "collect_chunks cs (xs @ ys) =
     (case collect_chunks cs xs of
        None \<Rightarrow> None
      | Some found \<Rightarrow> map_option (\<lambda>more. found @ more) (collect_chunks cs ys))"
proof (induction xs)
  case Nil
  show ?case by (cases "collect_chunks cs ys") simp_all
next
  case (Cons x xs)
  obtain score idx where x: "x = (score, idx)" by (cases x)
  show ?case
    using Cons.IH
    by (cases "collect_chunks cs ys") (auto simp: x split: option.splits)
qed

lemma py_index_valid: "0 \<le> i \<Longrightarrow> i < int (length cs) \<Longrightarrow> py_index cs i = Some (cs ! nat i)"
  by (simp add: py_index_def)

lemma py_index_minus_one: "cs \<noteq> [] \<Longrightarrow> py_index cs (- 1) = Some (last cs)"
  by (cases cs rule: rev_cases) (simp_all add: py_index_def Let_def nat_add_distrib)

lemma collect_chunks_valid:
  assumes "\<forall>i \<in> set hits. 0 \<le> i \<and> i < int (length cs)"
  shows "collect_chunks cs (zip scs hits) = Some (zip (map (\<lambda>i. cs ! nat i) hits) scs)"
  using assms
proof (induction hits arbitrary: scs)
  case Nil
  show ?case by simp
next
  case (Cons i hits)
  show ?case
  proof (cases scs)
    case Nil
    then show ?thesis by simp
  next
    case (Cons sc scs')
    with Cons.prems Cons.IH[of scs'] show ?thesis by (simp add: py_index_valid)
  qed
qed

lemma collect_chunks_padding:
  assumes "cs \<noteq> []"
  shows "collect_chunks cs (zip scs (replicate k (- 1))) =
           Some (map (\<lambda>sc. (last cs, sc)) (take k scs))"
proof (induction k arbitrary: scs)
  case 0
  show ?case by simp
next
  case (Suc k)
  show ?case
  proof (cases scs)
    case Nil
    then show ?thesis by simp
  next
    case (Cons sc scs')
    with Suc[of scs'] assms show ?thesis by (simp add: py_index_minus_one)
  qed
qed

lemma retrieve_padded:
  assumes cs: "document_chunks s = cs" and ne: "cs \<noteq> []"
    and up: "\<not> encode_raises e"
    and res: "search (vector_store s) (encode q) k = (scores, hits @ replicate (k - length cs) (- 1))"
    and lh: "length hits = length cs"
    and valid: "\<forall>i \<in> set hits. 0 \<le> i \<and> i < int (length cs)"
  shows "retrieve_relevant_chunks encode search e q k s =
           (zip (map (\<lambda>i. cs ! nat i) hits) (take (length cs) scores) @
            map (\<lambda>sc. (last cs, sc)) (take (k - length cs) (drop (length cs) scores)),
            [Encode [q], Search k])"
proof -
  have z: "zip scores (hits @ replicate (k - length cs) (- 1)) =
           zip (take (length cs) scores) hits @
           zip (drop (length cs) scores) (replicate (k - length cs) (- 1))"
    using lh by (simp add: zip_append2)
  have "collect_chunks cs (zip scores (hits @ replicate (k - length cs) (- 1))) =
        Some (zip (map (\<lambda>i. cs ! nat i) hits) (take (length cs) scores) @
              map (\<lambda>sc. (last cs, sc)) (take (k - length cs) (drop (length cs) scores)))"
    unfolding z collect_chunks_append
    by (simp add: collect_chunks_valid[OF valid] collect_chunks_padding[OF ne])
  with cs ne up res show ?thesis
    by (simp add: retrieve_relevant_chunks_def)
qed

text \<open>
  Claim C10.  The retrieval loop keeps every position \<open>idx < len(document_chunks)\<close>, and
  \<open>document_chunks[-1]\<close> is the last chunk.  So with \<open>n\<close> chunks, \<open>0 < n < 5\<close>, and a search
  result whose \<open>5 - n\<close> missing positions are \<open>-1\<close>, the retrieved list has five entries:
  the chunks found, then the last chunk once per missing position.  For a non-blank
  question this very list, repetitions included, is the one from which the prompt sent to
  the generative model is assembled, and the analytics log counts five chunks.
\<close>

theorem retrieval_repeats_last_chunk:
  assumes cs: "document_chunks s = cs" and ne: "cs \<noteq> []" and short: "length cs < 5"
    and up: "\<not> encode_raises e"
    and res: "search (vector_store s) (encode q) 5 = (scores, hits @ replicate (5 - length cs) (- 1))"
    and ls: "length scores = 5" and lh: "length hits = length cs"
    and valid: "\<forall>i \<in> set hits. 0 \<le> i \<and> i < int (length cs)"
  shows "fst (retrieve_relevant_chunks encode search e q 5 s) =
           zip (map (\<lambda>i. cs ! nat i) hits) (take (length cs) scores) @
           map (\<lambda>sc. (last cs, sc)) (drop (length cs) scores) \<and>
         length (fst (retrieve_relevant_chunks encode search e q 5 s)) = 5 \<and>
         (py_strip q \<noteq> [] \<longrightarrow>
            query encode search llm e q s =
              (fst (generate_response llm q
                      (zip (map (\<lambda>i. cs ! nat i) hits) (take (length cs) scores) @
                       map (\<lambda>sc. (last cs, sc)) (drop (length cs) scores))),
               [Encode [q], Search 5,
                Generate (build_prompt q
                      (zip (map (\<lambda>i. cs ! nat i) hits) (take (length cs) scores) @
                       map (\<lambda>sc. (last cs, sc)) (drop (length cs) scores))),
                LogQuery q 5 (length (documents s))]))"
proof -
  let ?found = "zip (map (\<lambda>i. cs ! nat i) hits) (take (length cs) scores) @
                map (\<lambda>sc. (last cs, sc)) (drop (length cs) scores)"
  have r: "retrieve_relevant_chunks encode search e q 5 s = (?found, [Encode [q], Search 5])"
    using retrieve_padded[where search = search and encode = encode, OF cs ne up res lh valid] ls
    by simp
  have len: "length ?found = 5" using ls lh short by simp
  then have nonempty: "?found \<noteq> []" by auto
  have g: "snd (generate_response llm q ?found) = [Generate (build_prompt q ?found)]"
    by (simp add: generate_response_def Let_def split: option.splits)
  have "py_strip q \<noteq> [] \<Longrightarrow>
        query encode search llm e q s =
          (fst (generate_response llm q ?found),
           [Encode [q], Search 5, Generate (build_prompt q ?found),
            LogQuery q 5 (length (documents s))])"
    using nonempty len g
    by (simp add: query_def r log_query_def Let_def case_prod_beta
          del: length_append length_zip length_map)
  with r len show ?thesis by simp
qed

theorem retrieval_repeats_last_chunk_witness:
  "fst (retrieve_relevant_chunks toy_encode toy_search quiet_env ''Which Greek letter?'' 5
          (saved_state [11, 5] [doc_a, doc_b] [chunk_a, chunk_b])) =
     [(chunk_a, 0), (chunk_b, 0), (chunk_b, 0), (chunk_b, 0), (chunk_b, 0)] \<and>
   query toy_encode toy_search toy_llm quiet_env ''Which Greek letter?''
       (saved_state [11, 5] [doc_a, doc_b] [chunk_a, chunk_b]) =
     (''An answer.'',
      [Encode [''Which Greek letter?''], Search 5,
       Generate (build_prompt ''Which Greek letter?''
          [(chunk_a, 0 :: nat), (chunk_b, 0), (chunk_b, 0), (chunk_b, 0), (chunk_b, 0)]),
       LogQuery ''Which Greek letter?'' 5 2]) \<and>
   build_prompt ''Which Greek letter?''
       [(chunk_a, 0 :: nat), (chunk_b, 0), (chunk_b, 0), (chunk_b, 0), (chunk_b, 0)] \<noteq>
   build_prompt ''Which Greek letter?'' [(chunk_a, 0 :: nat), (chunk_b, 0)]"
proof -
  let ?s = "saved_state [11, 5] [doc_a, doc_b] [chunk_a, chunk_b]"
  have cs: "document_chunks ?s = [chunk_a, chunk_b]" by (simp add: saved_state_def)
  have ne: "[chunk_a, chunk_b] \<noteq> []" by simp
  have short: "length [chunk_a, chunk_b] < 5" by simp
  have up: "\<not> encode_raises quiet_env" by (simp add: quiet_env_def txt_env_def)
  have res: "toy_search (vector_store ?s) (toy_encode ''Which Greek letter?'') 5 =
             (replicate 5 0, [0, 1] @ replicate (5 - length [chunk_a, chunk_b]) (- 1))"
    by (simp add: toy_search_def saved_state_def eval_nat_numeral)
  have ls: "length (replicate 5 (0::nat)) = 5" by simp
  have lh: "length [0, 1 :: int] = length [chunk_a, chunk_b]" by simp
  have valid: "\<forall>i \<in> set [0, 1 :: int]. 0 \<le> i \<and> i < int (length [chunk_a, chunk_b])" by simp
  have q: "py_strip ''Which Greek letter?'' \<noteq> []" by code_simp
  have found: "zip (map (\<lambda>i. [chunk_a, chunk_b] ! nat i) [0, 1])
                   (take (length [chunk_a, chunk_b]) (replicate 5 (0::nat))) @
               map (\<lambda>sc. (last [chunk_a, chunk_b], sc))
                   (drop (length [chunk_a, chunk_b]) (replicate 5 (0::nat))) =
               [(chunk_a, 0), (chunk_b, 0), (chunk_b, 0), (chunk_b, 0), (chunk_b, 0)]"
    by (simp add: eval_nat_numeral)
  note main = retrieval_repeats_last_chunk
         [where search = toy_search and encode = toy_encode and llm = toy_llm,
          OF cs ne short up res ls lh valid, unfolded found]
  have a: "fst (retrieve_relevant_chunks toy_encode toy_search quiet_env
                  ''Which Greek letter?'' 5 ?s) =
           [(chunk_a, 0), (chunk_b, 0), (chunk_b, 0), (chunk_b, 0), (chunk_b, 0)]"
    using main by blast
  have b: "query toy_encode toy_search toy_llm quiet_env ''Which Greek letter?'' ?s =
     (''An answer.'',
      [Encode [''Which Greek letter?''], Search 5,
       Generate (build_prompt ''Which Greek letter?''
          [(chunk_a, 0 :: nat), (chunk_b, 0), (chunk_b, 0), (chunk_b, 0), (chunk_b, 0)]),
       LogQuery ''Which Greek letter?'' 5 2])"
    using main[THEN conjunct2, THEN conjunct2, rule_format, OF q]
    by (simp add: generate_response_def toy_llm_def saved_state_def Let_def)
  have c: "build_prompt ''Which Greek letter?''
       [(chunk_a, 0 :: nat), (chunk_b, 0), (chunk_b, 0), (chunk_b, 0), (chunk_b, 0)] \<noteq>
     build_prompt ''Which Greek letter?'' [(chunk_a, 0 :: nat), (chunk_b, 0)]"
    by (simp add: build_prompt_def chunk_a_def chunk_b_def Let_def)
  show ?thesis by (intro conjI a b c)
qed

section \<open>Removal with a negative id\<close>

lemma py_pop_negative:
  assumes "did < 0" "- int (length xs) \<le> did"
  shows "py_pop xs did = Some (xs ! nat (did + int (length xs)),
           take (nat (did + int (length xs))) xs @ drop (Suc (nat (did + int (length xs)))) xs)"
  using assms by (simp add: py_pop_def Let_def)

text \<open>
  Claim C9, as the code has it.  For a negative \<open>doc_id\<close> with
  \<open>-len(documents) \<le> doc_id\<close>, when neither the re-embedding nor the Firestore delete
  raises, \<open>remove_document\<close> returns \<open>True\<close>, has popped the document at that position
  counted from the end, and has kept every chunk whose \<open>doc_id\<close> differs from the
  argument.  For \<open>doc_id < -len(documents)\<close> the \<open>pop\<close> raises \<open>IndexError\<close> and the call
  returns \<open>False\<close> with the state unchanged.
\<close>

theorem remove_document_negative_id:
  assumes "did < 0"
  shows "(- int (length (documents s)) \<le> did \<and> \<not> encode_raises e \<and> \<not> firestore_raises e \<longrightarrow>
            fst (remove_document encode str_dt e did s) = True \<and>
            documents (snd (remove_document encode str_dt e did s)) =
              take (nat (did + int (length (documents s)))) (documents s) @
              drop (Suc (nat (did + int (length (documents s))))) (documents s) \<and>
            document_chunks (snd (remove_document encode str_dt e did s)) =
              filter (\<lambda>c. doc_id c \<noteq> did) (document_chunks s)) \<and>
         (did < - int (length (documents s)) \<longrightarrow>
            remove_document encode str_dt e did s = (False, s))"
proof (intro conjI impI)
  assume "did < - int (length (documents s))"
  with assms show "remove_document encode str_dt e did s = (False, s)"
    by (simp add: remove_document_def py_pop_def Let_def)
next
  assume a: "- int (length (documents s)) \<le> did \<and> \<not> encode_raises e \<and> \<not> firestore_raises e"
  with assms show "fst (remove_document encode str_dt e did s) = True"
    by (simp add: remove_document_def py_pop_negative Let_def)
  from a assms show "documents (snd (remove_document encode str_dt e did s)) =
              take (nat (did + int (length (documents s)))) (documents s) @
              drop (Suc (nat (did + int (length (documents s))))) (documents s)"
    by (simp add: remove_document_def py_pop_negative Let_def)
  from a assms show "document_chunks (snd (remove_document encode str_dt e did s)) =
              filter (\<lambda>c. doc_id c \<noteq> did) (document_chunks s)"
    by (simp add: remove_document_def py_pop_negative Let_def)
qed

theorem remove_document_negative_id_witness:
  "(- 1 :: int) < 0 \<and>
   - int (length (documents (saved_state [11, 5] [doc_a, doc_b] [chunk_a, chunk_b]))) \<le> - 1 \<and>
   \<not> encode_raises quiet_env \<and> \<not> firestore_raises quiet_env \<and>
   fst (remove_document toy_encode render_time quiet_env (- 1)
          (saved_state [11, 5] [doc_a, doc_b] [chunk_a, chunk_b])) = True \<and>
   documents (snd (remove_document toy_encode render_time quiet_env (- 1)
          (saved_state [11, 5] [doc_a, doc_b] [chunk_a, chunk_b]))) = [doc_a] \<and>
   document_chunks (snd (remove_document toy_encode render_time quiet_env (- 1)
          (saved_state [11, 5] [doc_a, doc_b] [chunk_a, chunk_b]))) = [chunk_a, chunk_b] \<and>
   (- 3 :: int) < 0 \<and>
   - 3 < - int (length (documents (saved_state [11, 5] [doc_a, doc_b] [chunk_a, chunk_b]))) \<and>
   remove_document toy_encode render_time quiet_env (- 3)
          (saved_state [11, 5] [doc_a, doc_b] [chunk_a, chunk_b]) =
     (False, saved_state [11, 5] [doc_a, doc_b] [chunk_a, chunk_b])"
proof -
  let ?s = "saved_state [11, 5] [doc_a, doc_b] [chunk_a, chunk_b]"
  have h1: "(- 1 :: int) < 0" by simp
  have h2: "- int (length (documents ?s)) \<le> - 1"
    by (simp add: saved_state_def)
  have h3: "\<not> encode_raises quiet_env" and h4: "\<not> firestore_raises quiet_env"
    by (simp_all add: quiet_env_def txt_env_def)
  have k1: "(- 3 :: int) < 0" by simp
  have k2: "- 3 < - int (length (documents ?s))"
    by (simp add: saved_state_def)
  have first: "fst (remove_document toy_encode render_time quiet_env (- 1) ?s) = True \<and>
     documents (snd (remove_document toy_encode render_time quiet_env (- 1) ?s)) = [doc_a] \<and>
     document_chunks (snd (remove_document toy_encode render_time quiet_env (- 1) ?s)) =
       [chunk_a, chunk_b]"
    using remove_document_negative_id[OF h1, of ?s quiet_env toy_encode render_time,
            THEN conjunct1, rule_format, OF conjI[OF h2 conjI[OF h3 h4]]]
    by (simp add: saved_state_def chunk_a_def chunk_b_def)
  have second: "remove_document toy_encode render_time quiet_env (- 3) ?s = (False, ?s)"
    using remove_document_negative_id[OF k1, of ?s quiet_env toy_encode render_time,
            THEN conjunct2, rule_format, OF k2] .
  from h1 h2 h3 h4 first k1 k2 second show ?thesis by blast
qed

text \<open>
  Claim C9 as stated, for every negative \<open>doc_id\<close>, fails: below \<open>-len(documents)\<close> the
  \<open>pop\<close> raises \<open>IndexError\<close>, and the call returns \<open>False\<close> with nothing changed.
\<close>

theorem remove_document_below_range:
  "remove_document toy_encode render_time quiet_env (- 2) (saved_state [11] [doc_a] [chunk_a]) =
     (False, saved_state [11] [doc_a] [chunk_a])"
  by code_simp

end
